theory Spec2Isabelle
  imports Main "HOL-Library.AList" "HOL-Library.Word"
begin

section \<open>Schema documents as Python values\<close>

text \<open>
  A schema document is a JSON-compatible Python value.  A \<open>dict\<close> is an association
  list in insertion order whose keys are pairwise distinct; \<open>d.get(k)\<close> is
  \<^const>\<open>map_of\<close> and \<open>d[k] = v\<close> is \<^const>\<open>AList.update\<close> (replace in place, or append
  when the key is new).  Documents are values: two occurrences of one sub-document are
  two copies, so object sharing inside a document is not represented.  A \<open>str\<close> is a
  \<^typ>\<open>string\<close>, its characters read as the code points 0 to 255; a number is an \<open>int\<close>.
\<close>

datatype json =
    JNull
  | JBool bool
  | JNum int
  | JStr string
  | JList "json list"
  | JDict "(string \<times> json) list"

text \<open>The exceptions that can leave the modelled functions.  \<open>OtherError\<close> stands for
  any exception class that is neither \<open>ValueError\<close> nor \<open>TypeError\<close> nor
  \<open>AttributeError\<close>.\<close>

datatype error =
    ValueError string
  | TypeError
  | AttributeError
  | OtherError string

type_synonym 'a result = "error + 'a"

definition bind :: "'a result \<Rightarrow> ('a \<Rightarrow> 'b result) \<Rightarrow> 'b result" where
  "bind m k = (case m of Inl e \<Rightarrow> Inl e | Inr x \<Rightarrow> k x)"

text \<open>\<open>d.get(k)\<close>: the value stored under the key, \<open>None\<close> when there is none.\<close>

definition dict_get :: "(string \<times> json) list \<Rightarrow> string \<Rightarrow> json" where
  "dict_get d k = (case map_of d k of None \<Rightarrow> JNull | Some v \<Rightarrow> v)"

text \<open>\<open>d.update(other)\<close>: the entries of \<open>other\<close> are stored one after the other.\<close>

fun dict_update :: "('k \<times> 'v) list \<Rightarrow> ('k \<times> 'v) list \<Rightarrow> ('k \<times> 'v) list" where
  "dict_update d [] = d"
| "dict_update d ((k, v) # other) = dict_update (AList.update k v d) other"

text \<open>Python truth value of a document value (\<open>if fields:\<close>).\<close>

fun truthy :: "json \<Rightarrow> bool" where
  "truthy JNull = False"
| "truthy (JBool b) = b"
| "truthy (JNum n) = (n \<noteq> 0)"
| "truthy (JStr s) = (s \<noteq> [])"
| "truthy (JList xs) = (xs \<noteq> [])"
| "truthy (JDict d) = (d \<noteq> [])"

text \<open>Whether a \<open>for\<close> can run over the value: \<open>None\<close>, booleans and numbers
  raise \<open>TypeError\<close> there.\<close>

fun iterable :: "json \<Rightarrow> bool" where
  "iterable (JStr s) = True"
| "iterable (JList xs) = True"
| "iterable (JDict d) = True"
| "iterable v = False"

section \<open>case\_avro.py\<close>

subsection \<open>The case functions\<close>

text \<open>
  A case function is called on whatever value sits under a \<open>name\<close> key and either
  returns a value or raises.
\<close>

type_synonym case_func = "json \<Rightarrow> json result"

text \<open>
  The \<open>casefy\<close> package is an external library; the functions of it that
  \<open>CASE_TO_FUNC\<close> refers to are a parameter of the model.
\<close>

record casefy =
  camelcase :: case_func
  capitalcase :: case_func
  constcase :: case_func
  lowercase :: case_func
  pascalcase :: case_func
  separatorcase :: "json \<Rightarrow> string \<Rightarrow> json result"
  snakecase :: case_func
  kebabcase :: case_func
  upperkebabcase :: case_func
  uppercase :: case_func
  alphanumcase :: case_func

text \<open>
  \<open>str.strip\<close> without arguments removes leading and trailing whitespace.  For the
  one-byte characters of \<^typ>\<open>string\<close>, read as code points 0 to 255, Python's
  \<open>str.isspace\<close> holds of 9 to 13, 28 to 32, 133 and 160.  Called through the class
  on a value that is not a \<open>str\<close>, the method descriptor raises \<open>TypeError\<close>.
\<close>

definition isspace :: "char \<Rightarrow> bool" where
  "isspace c \<longleftrightarrow>
     c \<in> {CHR 0x09, CHR 0x0A, CHR 0x0B, CHR 0x0C, CHR 0x0D, CHR 0x1C, CHR 0x1D, CHR 0x1E,
          CHR 0x1F, CHR 0x20, CHR 0x85, CHR 0xA0}"

definition strip :: "string \<Rightarrow> string" where
  "strip s = rev (dropWhile isspace (rev (dropWhile isspace s)))"

fun str_strip :: case_func where
  "str_strip (JStr s) = Inr (JStr (strip s))"
| "str_strip v = Inl TypeError"

definition CAMELCASE :: string where "CAMELCASE = ''camelcase''"
definition CAPITALCASE :: string where "CAPITALCASE = ''capitalcase''"
definition CONSTCASE :: string where "CONSTCASE = ''constcase''"
definition LOWERCASE :: string where "LOWERCASE = ''lowercase''"
definition PASCALCASE :: string where "PASCALCASE = ''pascalcase''"
definition PATHCASE :: string where "PATHCASE = ''pathcase''"
definition SNAKECASE :: string where "SNAKECASE = ''snakecase''"
definition SPINALCASE :: string where "SPINALCASE = ''spinalcase''"
definition UPPERSPINALCASE :: string where "UPPERSPINALCASE = ''upperkebabcase''"
definition TRIMCASE :: string where "TRIMCASE = ''trimcase''"
definition UPPERCASE :: string where "UPPERCASE = ''uppercase''"
definition ALPHANUMCASE :: string where "ALPHANUMCASE = ''alphanumcase''"

lemmas case_token_defs =
  CAMELCASE_def CAPITALCASE_def CONSTCASE_def LOWERCASE_def PASCALCASE_def PATHCASE_def
  SNAKECASE_def SPINALCASE_def UPPERSPINALCASE_def TRIMCASE_def UPPERCASE_def
  ALPHANUMCASE_def

text \<open>The twelve tokens, in the order of the keys of \<open>CASE_TO_FUNC\<close>.\<close>

definition case_tokens :: "string list" where
  "case_tokens =
     [CAMELCASE, CAPITALCASE, CONSTCASE, LOWERCASE, PASCALCASE, PATHCASE, SNAKECASE,
      SPINALCASE, UPPERSPINALCASE, TRIMCASE, UPPERCASE, ALPHANUMCASE]"

text \<open>The dictionary \<open>CASE_TO_FUNC\<close>, in the order its literal is written.\<close>

definition CASE_TO_FUNC :: "casefy \<Rightarrow> (string \<times> case_func) list" where
  "CASE_TO_FUNC L =
    [(CAMELCASE, camelcase L),
     (CAPITALCASE, capitalcase L),
     (CONSTCASE, constcase L),
     (LOWERCASE, lowercase L),
     (PASCALCASE, pascalcase L),
     (PATHCASE, \<lambda>value. separatorcase L value ''/''),
     (SNAKECASE, snakecase L),
     (SPINALCASE, kebabcase L),
     (UPPERSPINALCASE, upperkebabcase L),
     (TRIMCASE, str_strip),
     (UPPERCASE, uppercase L),
     (ALPHANUMCASE, alphanumcase L)]"

text \<open>Modelled from the spec: the constant \<open>ENUM\<close> is imported from
  \<open>fields/field_utils.py\<close>, which is not among the source files; the spec writes the
  test as \<open>type == "enum"\<close>.\<close>

definition ENUM :: string where
  "ENUM = ''enum''"

subsection \<open>The error message of \<open>case_item\<close>\<close>

text \<open>
  \<open>f"Unsupported case type '{case_type}'. Valid types are: {list(CASE_TO_FUNC.keys())}"\<close>.
  The list is formatted by \<open>repr\<close>: its items, each between single quotes (the keys
  hold nothing that \<open>repr\<close> would escape), separated by a comma and a space, inside
  square brackets.
\<close>

definition quote :: char where
  "quote = CHR 0x27"

fun join :: "string \<Rightarrow> string list \<Rightarrow> string" where
  "join sep [] = []"
| "join sep [x] = x"
| "join sep (x # y # ys) = x @ sep @ join sep (y # ys)"

definition repr_keys :: "string list \<Rightarrow> string" where
  "repr_keys ks = ''['' @ join '', '' (map (\<lambda>k. quote # k @ [quote]) ks) @ '']''"

definition unsupported_msg :: "casefy \<Rightarrow> string \<Rightarrow> string" where
  "unsupported_msg L case_type =
     ''Unsupported case type '' @ [quote] @ case_type @ [quote] @
     ''. Valid types are: '' @ repr_keys (map fst (CASE_TO_FUNC L))"

subsection \<open>\<open>case_item\<close> and \<open>case_record\<close>\<close>

lemma bind_cong [fundef_cong]:
  "m = m' \<Longrightarrow> (\<And>x. m' = Inr x \<Longrightarrow> k x = k' x) \<Longrightarrow> bind m k = bind m' k'"
  by (auto simp: bind_def split: sum.splits)

text \<open>
  \<open>case_item\<close> looks the case function up first and raises \<open>ValueError\<close> when there
  is none; only then does it read \<open>item.items()\<close>, which raises \<open>AttributeError\<close> on
  a value that is not a dict.  \<open>item_loop\<close> is its \<open>for key, value in item.items()\<close>
  loop, giving the entries of \<open>transformed_item\<close> in the order they are stored;
  \<open>elem_loop\<close> is the list comprehension over a list value.

  \<open>case_record\<close> returns an enum document as it is.  Otherwise, when \<open>fields\<close> is
  truthy, \<open>field_loop\<close> is the comprehension \<open>[case_item(field, case_type) for field in fields]\<close>,
  the result is stored under \<open>fields\<close> and the document itself is returned; iterating
  a non-empty \<open>str\<close> or \<open>dict\<close> yields strings, so the comprehension ends in the first
  call of \<open>case_item\<close>, which raises; a number or \<open>True\<close> is not iterable.
  When \<open>fields\<close> is missing or falsy, the result is \<open>case_item\<close> of the whole
  document.
\<close>

function (sequential)
  case_item :: "casefy \<Rightarrow> json \<Rightarrow> string \<Rightarrow> json result" and
  item_loop :: "casefy \<Rightarrow> case_func \<Rightarrow> (string \<times> json) list \<Rightarrow> string \<Rightarrow> (string \<times> json) list result" and
  elem_loop :: "casefy \<Rightarrow> json list \<Rightarrow> string \<Rightarrow> json list result" and
  case_record :: "casefy \<Rightarrow> json \<Rightarrow> string \<Rightarrow> json result" and
  field_loop :: "casefy \<Rightarrow> json list \<Rightarrow> string \<Rightarrow> json list result"
where
  "case_item L item case_type =
     (case map_of (CASE_TO_FUNC L) case_type of
        None \<Rightarrow> Inl (ValueError (unsupported_msg L case_type))
      | Some case_func \<Rightarrow>
          (case item of
             JDict kvs \<Rightarrow> bind (item_loop L case_func kvs case_type) (\<lambda>kvs'. Inr (JDict kvs'))
           | _ \<Rightarrow> Inl AttributeError))"
| "item_loop L case_func [] case_type = Inr []"
| "item_loop L case_func ((key, value) # rest) case_type =
     bind
       (if key = ''name'' then case_func value
        else case value of
               JDict d \<Rightarrow>
                 if map_of d ''name'' \<noteq> None then case_record L value case_type
                 else Inr value
             | JList xs \<Rightarrow> bind (elem_loop L xs case_type) (\<lambda>xs'. Inr (JList xs'))
             | _ \<Rightarrow> Inr value)
       (\<lambda>value'. bind (item_loop L case_func rest case_type)
          (\<lambda>rest'. Inr ((key, value') # rest')))"
| "elem_loop L [] case_type = Inr []"
| "elem_loop L (element # rest) case_type =
     bind
       (case element of
          JDict d \<Rightarrow> case_record L element case_type
        | _ \<Rightarrow> Inr element)
       (\<lambda>element'. bind (elem_loop L rest case_type)
          (\<lambda>rest'. Inr (element' # rest')))"
| "case_record L (JDict d) case_type =
     (if dict_get d ''type'' = JStr ENUM then Inr (JDict d)
      else if truthy (dict_get d ''fields'') then
        (case dict_get d ''fields'' of
           JList fs \<Rightarrow>
             bind (field_loop L fs case_type)
               (\<lambda>fs'. Inr (JDict (AList.update ''fields'' (JList fs') d)))
         | JStr (c # cs) \<Rightarrow> case_item L (JStr [c]) case_type
         | JDict ((k, v) # kvs) \<Rightarrow> case_item L (JStr k) case_type
         | _ \<Rightarrow> Inl TypeError)
      else case_item L (JDict d) case_type)"
| "case_record L v case_type = Inl AttributeError"
| "field_loop L [] case_type = Inr []"
| "field_loop L (field # rest) case_type =
     bind (case_item L field case_type)
       (\<lambda>field'. bind (field_loop L rest case_type)
          (\<lambda>rest'. Inr (field' # rest')))"
  by pat_completeness auto

lemma dict_get_size:
  "size (dict_get d k) < Suc (size_list (size_prod (\<lambda>x. 0) size) d)"
  by (induction d) (auto simp: dict_get_def)

termination case_item
  apply (relation "measure (\<lambda>x. case x of
     Inl (Inl (L, v, s)) \<Rightarrow> 2 * size v
   | Inl (Inr (L, f, kvs, s)) \<Rightarrow> 2 * size_list (size_prod (\<lambda>x. 0) size) kvs
   | Inr (Inl (L, xs, s)) \<Rightarrow> 2 * size_list size xs
   | Inr (Inr (Inl (L, v, s))) \<Rightarrow> 2 * size v + 1
   | Inr (Inr (Inr (L, xs, s))) \<Rightarrow> 2 * size_list size xs)")
                 apply simp_all
  subgoal for d
    using dict_get_size [of d "''fields''"] by simp
  done

subsection \<open>An instance of the library for concrete documents\<close>

text \<open>
  Modelled from the spec: the source of \<open>casefy\<close> is not among the files, and the
  spec names the styles only (camel, capital, constant \<open>UPPER_SNAKE\<close>, lower, pascal,
  path, snake, kebab, upper-kebab, upper, alphanumeric-only) and gives
  \<open>PersonRecord\<close> to \<open>person_record\<close> and \<open>fullName\<close> to \<open>full_name\<close> for snake.
  \<open>example_casefy\<close> is one library of that kind, on ASCII identifiers: a word starts
  at an upper-case letter or after a separator.  The general theorems below hold for
  every library; this one serves to evaluate them on concrete documents.
\<close>

definition upper_letters :: string where
  "upper_letters = ''ABCDEFGHIJKLMNOPQRSTUVWXYZ''"

definition lower_letters :: string where
  "lower_letters = ''abcdefghijklmnopqrstuvwxyz''"

definition to_lower :: "char \<Rightarrow> char" where
  "to_lower c = (case map_of (zip upper_letters lower_letters) c of Some l \<Rightarrow> l | None \<Rightarrow> c)"

definition to_upper :: "char \<Rightarrow> char" where
  "to_upper c = (case map_of (zip lower_letters upper_letters) c of Some u \<Rightarrow> u | None \<Rightarrow> c)"

fun snake_tail :: "string \<Rightarrow> string" where
  "snake_tail [] = []"
| "snake_tail (c # cs) =
     (if c \<in> set upper_letters then CHR ''_'' # to_lower c # snake_tail cs
      else if c \<in> set ''-. '' then CHR ''_'' # snake_tail cs
      else c # snake_tail cs)"

definition snake :: "string \<Rightarrow> string" where
  "snake s = (case s of [] \<Rightarrow> [] | c # cs \<Rightarrow> to_lower c # snake_tail cs)"

definition separated :: "char \<Rightarrow> string \<Rightarrow> string" where
  "separated sep s = map (\<lambda>c. if c = CHR ''_'' then sep else c) (snake s)"

fun camel_tail :: "string \<Rightarrow> string" where
  "camel_tail [] = []"
| "camel_tail [c] = (if c = CHR ''_'' then [] else [c])"
| "camel_tail (c # c' # cs) =
     (if c = CHR ''_'' then to_upper c' # camel_tail cs else c # camel_tail (c' # cs))"

definition capital :: "string \<Rightarrow> string" where
  "capital s = (case s of [] \<Rightarrow> [] | c # cs \<Rightarrow> to_upper c # cs)"

definition on_str :: "(string \<Rightarrow> string) \<Rightarrow> case_func" where
  "on_str g v = (case v of JStr s \<Rightarrow> Inr (JStr (g s)) | _ \<Rightarrow> Inl TypeError)"

definition example_casefy :: casefy where
  "example_casefy =
     \<lparr>camelcase = on_str (\<lambda>s. camel_tail (snake s)),
      capitalcase = on_str capital,
      constcase = on_str (\<lambda>s. map to_upper (snake s)),
      lowercase = on_str (map to_lower),
      pascalcase = on_str (\<lambda>s. capital (camel_tail (snake s))),
      separatorcase = (\<lambda>v sep. on_str (\<lambda>s. concat (map (\<lambda>c. if c = CHR ''_'' then sep else [c]) (snake s))) v),
      snakecase = on_str snake,
      kebabcase = on_str (separated CHR ''-''),
      upperkebabcase = on_str (\<lambda>s. map to_upper (separated CHR ''-'' s)),
      uppercase = on_str (map to_upper),
      alphanumcase = on_str (filter (\<lambda>c. c \<in> set (upper_letters @ lower_letters @ ''0123456789'')))\<rparr>"

text \<open>An enum definition, and a record whose one field has that enum as its type.\<close>

definition color_enum :: "(string \<times> json) list" where
  "color_enum =
     [(''type'', JStr ''enum''),
      (''name'', JStr ''FavoriteColor''),
      (''symbols'', JList [JStr ''Blue'', JStr ''darkGreen''])]"

definition person_record :: "(string \<times> json) list" where
  "person_record =
     [(''type'', JStr ''record''),
      (''name'', JStr ''PersonRecord''),
      (''fields'', JList [JDict [(''name'', JStr ''fullName''), (''type'', JStr ''string'')]])]"

definition color_record :: "(string \<times> json) list" where
  "color_record =
     [(''type'', JStr ''record''),
      (''name'', JStr ''UserProfile''),
      (''fields'',
         JList [JDict [(''name'', JStr ''favoriteColor''), (''type'', JDict color_enum)]])]"



subsection \<open>The loops, entry by entry\<close>

text \<open>What one round of each loop computes: the value stored for an entry of an item,
  and the element produced for an element of a list value.\<close>

definition item_value :: "casefy \<Rightarrow> case_func \<Rightarrow> string \<Rightarrow> string \<Rightarrow> json \<Rightarrow> json result" where
  "item_value L case_func case_type key value =
     (if key = ''name'' then case_func value
      else case value of
             JDict d \<Rightarrow>
               if map_of d ''name'' \<noteq> None then case_record L value case_type
               else Inr value
           | JList xs \<Rightarrow> bind (elem_loop L xs case_type) (\<lambda>xs'. Inr (JList xs'))
           | _ \<Rightarrow> Inr value)"

definition elem_value :: "casefy \<Rightarrow> string \<Rightarrow> json \<Rightarrow> json result" where
  "elem_value L case_type element =
     (case element of JDict d \<Rightarrow> case_record L element case_type | _ \<Rightarrow> Inr element)"

text \<open>An enum definition: a dict whose \<open>type\<close> is \<open>ENUM\<close>.\<close>

definition is_enum :: "json \<Rightarrow> bool" where
  "is_enum v = (case v of JDict e \<Rightarrow> dict_get e ''type'' = JStr ENUM | _ \<Rightarrow> False)"




section \<open>dacite\_config.py\<close>

subsection \<open>Values seen by the type hooks\<close>

text \<open>
  A \<open>date\<close>, a \<open>time\<close> and a \<open>datetime\<close> with the attributes Python gives them;
  the time zone is its offset from UTC in minutes, when there is one.
  \<open>datetime.date()\<close> keeps year, month and day; \<open>datetime.time()\<close> keeps hour, minute,
  second, microsecond and fold and drops the time zone.
\<close>

record pydate =
  d_year :: int
  d_month :: int
  d_day :: int

record pytime =
  t_hour :: int
  t_minute :: int
  t_second :: int
  t_microsecond :: int
  t_tzinfo :: "int option"
  t_fold :: bool

record pydatetime =
  year :: int
  month :: int
  day :: int
  hour :: int
  minute :: int
  second :: int
  microsecond :: int
  tzinfo :: "int option"
  dt_fold :: bool

definition date_of :: "pydatetime \<Rightarrow> pydate" where
  "date_of dt = \<lparr>d_year = year dt, d_month = month dt, d_day = day dt\<rparr>"

definition time_of :: "pydatetime \<Rightarrow> pytime" where
  "time_of dt =
     \<lparr>t_hour = hour dt, t_minute = minute dt, t_second = second dt,
      t_microsecond = microsecond dt, t_tzinfo = None, t_fold = dt_fold dt\<rparr>"

text \<open>The values a hook can be handed: text, an object of a native type (a UUID is its
  128-bit number), or something else.\<close>

datatype pyvalue =
    Str string
  | Datetime pydatetime
  | Date pydate
  | Time pytime
  | Bytes "8 word list"
  | Uuid "128 word"
  | NoneValue

text \<open>
  \<open>dateutil.parser.parse\<close> and the constructor \<open>uuid.UUID\<close> are library code: each is
  a parameter that, given a text, returns a value or raises.
\<close>

type_synonym datetime_parser = "string \<Rightarrow> pydatetime result"

text \<open>\<open>except (ValueError, TypeError)\<close>.\<close>

fun caught :: "error \<Rightarrow> bool" where
  "caught (ValueError msg) = True"
| "caught TypeError = True"
| "caught e = False"

subsection \<open>The type hooks\<close>

text \<open>Each hook takes the library function it calls as its first argument.
  \<open>parse_bytes\<close>, which encodes a text, appears below by name only.\<close>

definition parse_datetime :: "datetime_parser \<Rightarrow> pyvalue \<Rightarrow> pyvalue result" where
  "parse_datetime parse value =
     (case value of
        Str s \<Rightarrow>
          (case parse s of
             Inr dt \<Rightarrow> Inr (Datetime dt)
           | Inl e \<Rightarrow>
               if caught e then Inl (ValueError (''Invalid datetime format: '' @ s))
               else Inl e)
      | _ \<Rightarrow> Inr value)"

definition parse_date :: "datetime_parser \<Rightarrow> pyvalue \<Rightarrow> pyvalue result" where
  "parse_date parse value =
     (case value of
        Str s \<Rightarrow>
          (case parse s of
             Inr dt \<Rightarrow> Inr (Date (date_of dt))
           | Inl e \<Rightarrow>
               if caught e then Inl (ValueError (''Invalid date format: '' @ s))
               else Inl e)
      | _ \<Rightarrow> Inr value)"

definition parse_time :: "datetime_parser \<Rightarrow> pyvalue \<Rightarrow> pyvalue result" where
  "parse_time parse value =
     (case value of
        Str s \<Rightarrow>
          (case parse s of
             Inr dt \<Rightarrow> Inr (Time (time_of dt))
           | Inl e \<Rightarrow>
               if caught e then Inl (ValueError (''Invalid time format: '' @ s))
               else Inl e)
      | _ \<Rightarrow> Inr value)"


subsection \<open>\<open>generate_dacite_config\<close>\<close>

text \<open>
  Type objects and function objects are referred to by name.  A configuration value is
  whatever a key of the configuration dictionary can hold: the dictionary is untyped,
  and so is the user's \<open>dacite_config\<close>.
\<close>

datatype pytype =
    T_datetime | T_date | T_time | T_bytes | T_UUID
  | T_typing_Tuple | T_tuple | T_Enum
  | T_class string

datatype hook =
    Hook_parse_datetime | Hook_parse_date | Hook_parse_time | Hook_parse_bytes
  | Hook_parse_uuid
  | Hook_user string

datatype confval =
    CBool bool
  | CNone
  | CList "pytype list"
  | CTuple "pytype list"
  | CRefs "(string \<times> pytype) list"
  | CHooks "(pytype \<times> hook) list"

text \<open>
  What the function reads of the model, after \<open>model.generate_schema()\<close> (which is not
  among the source files) has filled the metadata: the name of the class, and
  \<open>getattr(model._metadata, 'dacite_config', None)\<close>.
\<close>

record avro_model =
  klass_name :: string
  dacite_config :: "(string \<times> confval) list option"

text \<open>
  \<open>dacite.Config\<close> is a dataclass of the \<open>dacite\<close> package with these six fields and
  defaults.  Its generated constructor stores the keyword arguments without checking
  their types and raises \<open>TypeError\<close> on a keyword that is not a field.
\<close>

record Config =
  type_hooks :: confval
  cast :: confval
  forward_references :: confval
  check_types :: confval
  strict :: confval
  strict_unions_match :: confval

definition Config_fields :: "string list" where
  "Config_fields =
     [''type_hooks'', ''cast'', ''forward_references'', ''check_types'', ''strict'',
      ''strict_unions_match'']"

definition kwarg :: "(string \<times> confval) list \<Rightarrow> string \<Rightarrow> confval \<Rightarrow> confval" where
  "kwarg kwargs k dflt = (case map_of kwargs k of None \<Rightarrow> dflt | Some v \<Rightarrow> v)"

definition Config_init :: "(string \<times> confval) list \<Rightarrow> Config result" where
  "Config_init kwargs =
     (if \<forall>k \<in> set (map fst kwargs). k \<in> set Config_fields then
        Inr \<lparr>type_hooks = kwarg kwargs ''type_hooks'' (CHooks []),
             cast = kwarg kwargs ''cast'' (CList []),
             forward_references = kwarg kwargs ''forward_references'' CNone,
             check_types = kwarg kwargs ''check_types'' (CBool True),
             strict = kwarg kwargs ''strict'' (CBool False),
             strict_unions_match = kwarg kwargs ''strict_unions_match'' (CBool False)\<rparr>
      else Inl TypeError)"

definition default_dacite_config :: "avro_model \<Rightarrow> (string \<times> confval) list" where
  "default_dacite_config model =
     [(''check_types'', CBool False),
      (''cast'', CList []),
      (''forward_references'', CRefs [(klass_name model, T_class (klass_name model))]),
      (''type_hooks'',
         CHooks [(T_datetime, Hook_parse_datetime),
                 (T_date, Hook_parse_date),
                 (T_time, Hook_parse_time),
                 (T_bytes, Hook_parse_bytes),
                 (T_UUID, Hook_parse_uuid)])]"

definition enforced_casts :: "pytype list" where
  "enforced_casts = [T_typing_Tuple, T_tuple, T_Enum]"

text \<open>
  The user's dictionary is merged when it is truthy (neither \<open>None\<close> nor empty).  The
  merge stores the user's own objects, so when the user supplies \<open>cast\<close>,
  \<open>config.cast.extend\<close> lengthens the list held by the model's metadata as well: the
  function returns the configuration and the model as it is afterwards.  Only a list
  has \<open>extend\<close>.
\<close>

definition generate_dacite_config :: "avro_model \<Rightarrow> (Config \<times> avro_model) result" where
  "generate_dacite_config model =
     (let dacite_user_config = dacite_config model;
          merged =
            (case dacite_user_config of
               None \<Rightarrow> default_dacite_config model
             | Some u \<Rightarrow>
                 if u \<noteq> [] then dict_update (default_dacite_config model) u
                 else default_dacite_config model)
      in bind (Config_init merged)
           (\<lambda>config.
              case cast config of
                CList xs \<Rightarrow>
                  Inr (config\<lparr>cast := CList (xs @ enforced_casts)\<rparr>,
                       case dacite_user_config of
                         None \<Rightarrow> model
                       | Some u \<Rightarrow>
                           if map_of u ''cast'' \<noteq> None
                           then model\<lparr>dacite_config :=
                                  Some (AList.update ''cast'' (CList (xs @ enforced_casts)) u)\<rparr>
                           else model)
              | _ \<Rightarrow> Inl AttributeError))"

text \<open>The user's dictionary as \<open>generate_dacite_config\<close> uses it: nothing when it is
  falsy.\<close>

definition user_overrides :: "avro_model \<Rightarrow> (string \<times> confval) list" where
  "user_overrides model = (case dacite_config model of None \<Rightarrow> [] | Some u \<Rightarrow> u)"

text \<open>The dictionary handed to \<open>Config\<close>: the defaults with the overrides stored over
  them.\<close>

definition merged_config :: "avro_model \<Rightarrow> (string \<times> confval) list" where
  "merged_config model = dict_update (default_dacite_config model) (user_overrides model)"

text \<open>Instances of the two parsers for concrete inputs: each accepts one text and
  raises \<open>ValueError\<close> on every other.\<close>

definition example_datetime :: pydatetime where
  "example_datetime =
     \<lparr>year = 2024, month = 1, day = 2, hour = 3, minute = 4, second = 5,
      microsecond = 0, tzinfo = None, dt_fold = False\<rparr>"

definition example_parse :: datetime_parser where
  "example_parse s =
     (if s = ''2024-01-02 03:04:05'' then Inr example_datetime
      else Inl (ValueError (''Unknown string format: '' @ s)))"




text \<open>Models with user overrides.\<close>

definition checked_model :: avro_model where
  "checked_model =
     \<lparr>klass_name = ''Person'', dacite_config = Some [(''check_types'', CBool True)]\<rparr>"

definition casting_model :: avro_model where
  "casting_model =
     \<lparr>klass_name = ''Person'',
      dacite_config = Some [(''strict'', CBool True), (''cast'', CList [T_class ''Decimal''])]\<rparr>"

section \<open>Properties of the case transformer\<close>

text \<open>Storing entries with distinct keys one after the other into an empty dict gives the
  entries in that order: this is what \<open>item_loop\<close> returns for \<open>transformed_item\<close>.\<close>

lemma update_new_key: "k \<notin> fst ` set d \<Longrightarrow> AList.update k v d = d @ [(k, v)]"
  by (induction d) auto

lemma dict_update_in_order:
  "distinct (map fst (d @ kvs)) \<Longrightarrow> dict_update d kvs = d @ kvs"
proof (induction kvs arbitrary: d)
  case Nil
  then show ?case by simp
next
  case (Cons p kvs)
  obtain k v where p: "p = (k, v)" by (cases p)
  from Cons.prems p have "k \<notin> fst ` set d" by auto
  then have "AList.update k v d = d @ [(k, v)]" by (rule update_new_key)
  with Cons.IH [of "d @ [(k, v)]"] Cons.prems p show ?case by simp
qed

lemma keys_CASE_TO_FUNC: "map fst (CASE_TO_FUNC L) = case_tokens"
  by (simp add: CASE_TO_FUNC_def case_tokens_def)

lemma get_unsupported:
  "case_type \<notin> set case_tokens \<Longrightarrow> map_of (CASE_TO_FUNC L) case_type = None"
  using keys_CASE_TO_FUNC [of L] by (simp add: map_of_eq_None_iff del: set_map flip: set_map)

lemma unsupported_msg_literal:
  "unsupported_msg L case_type =
     ''Unsupported case type '' @ [quote] @ case_type @ [quote] @
     ''. Valid types are: ['camelcase', 'capitalcase', 'constcase', 'lowercase', 'pascalcase', 'pathcase', 'snakecase', 'spinalcase', 'upperkebabcase', 'trimcase', 'uppercase', 'alphanumcase']''"
  by (simp add: unsupported_msg_def repr_keys_def keys_CASE_TO_FUNC case_tokens_def
      case_token_defs quote_def)

lemma screaming_unsupported: "''SCREAMING'' \<notin> set case_tokens"
  by (simp add: case_tokens_def case_token_defs)

text \<open>
  C1. For every schema document whose top-level \<open>type\<close> is \<open>"enum"\<close> and every
  supported case style, \<open>case_record\<close> returns the document unmodified: the same keys
  and values in the same order, its own \<open>name\<close> and every symbol included.
\<close>

theorem case_record_enum_unmodified:
  assumes "dict_get d ''type'' = JStr ENUM"
    and "case_type \<in> set (map fst (CASE_TO_FUNC L))"
  shows "case_record L (JDict d) case_type = Inr (JDict d)"
  using assms(1) by simp

theorem case_record_enum_unmodified_witness:
  "dict_get color_enum ''type'' = JStr ENUM
   \<and> SNAKECASE \<in> set (map fst (CASE_TO_FUNC example_casefy))
   \<and> case_record example_casefy (JDict color_enum) SNAKECASE = Inr (JDict color_enum)"
proof -
  have t: "dict_get color_enum ''type'' = JStr ENUM"
    by (simp add: dict_get_def color_enum_def ENUM_def)
  have s: "SNAKECASE \<in> set (map fst (CASE_TO_FUNC example_casefy))"
    by (simp add: CASE_TO_FUNC_def)
  show ?thesis
    using t s case_record_enum_unmodified [OF t s] by simp
qed

text \<open>
  C3. For every token outside the twelve supported ones, \<open>case_record\<close> on a document
  that is not an enum (and whose \<open>fields\<close>, when truthy, is something a \<open>for\<close> can
  run over, as the field list of a schema is) raises the \<open>ValueError\<close> of \<open>case_item\<close>:
  its message names the token and lists the twelve valid tokens.  No document is
  returned.
\<close>

theorem case_record_unsupported_case:
  assumes "case_type \<notin> set case_tokens"
    and "dict_get d ''type'' \<noteq> JStr ENUM"
    and "truthy (dict_get d ''fields'') \<longrightarrow> iterable (dict_get d ''fields'')"
  shows "case_record L (JDict d) case_type =
     Inl (ValueError (''Unsupported case type '' @ [quote] @ case_type @ [quote] @
       ''. Valid types are: ['camelcase', 'capitalcase', 'constcase', 'lowercase', 'pascalcase', 'pathcase', 'snakecase', 'spinalcase', 'upperkebabcase', 'trimcase', 'uppercase', 'alphanumcase']''))"
proof -
  note none = get_unsupported [OF assms(1), of L]
  have "case_record L (JDict d) case_type = Inl (ValueError (unsupported_msg L case_type))"
  proof (cases "truthy (dict_get d ''fields'')")
    case False
    then show ?thesis using assms(2) none by simp
  next
    case True
    with assms(3) have it: "iterable (dict_get d ''fields'')" by simp
    show ?thesis
    proof (cases "dict_get d ''fields''")
      case (JList fs)
      with True obtain x xs where fs: "fs = x # xs" by (cases fs) auto
      show ?thesis using assms(2) True JList fs none by (simp add: bind_def)
    next
      case (JStr s)
      with True obtain c cs where "s = c # cs" by (cases s) auto
      then show ?thesis using assms(2) True JStr none by simp
    next
      case (JDict kvs)
      with True obtain k v r where "kvs = (k, v) # r" by (cases kvs) auto
      then show ?thesis using assms(2) True JDict none by simp
    qed (use it in auto)
  qed
  then show ?thesis by (simp only: unsupported_msg_literal)
qed

theorem case_record_unsupported_case_witness:
  "''SCREAMING'' \<notin> set case_tokens
   \<and> dict_get person_record ''type'' \<noteq> JStr ENUM
   \<and> truthy (dict_get person_record ''fields'')
   \<and> iterable (dict_get person_record ''fields'')
   \<and> case_record example_casefy (JDict person_record) ''SCREAMING'' =
     Inl (ValueError (''Unsupported case type '' @ [quote] @ ''SCREAMING'' @ [quote] @
       ''. Valid types are: ['camelcase', 'capitalcase', 'constcase', 'lowercase', 'pascalcase', 'pathcase', 'snakecase', 'spinalcase', 'upperkebabcase', 'trimcase', 'uppercase', 'alphanumcase']''))"
proof -
  have t: "dict_get person_record ''type'' \<noteq> JStr ENUM"
    by (simp add: dict_get_def person_record_def ENUM_def)
  have f: "truthy (dict_get person_record ''fields'')"
    and i: "iterable (dict_get person_record ''fields'')"
    by (simp_all add: dict_get_def person_record_def)
  show ?thesis
    using screaming_unsupported t f i
      case_record_unsupported_case [OF screaming_unsupported t impI [OF i], of example_casefy]
    by blast
qed

text \<open>
  C10. An enum document is returned unchanged, with no error, also when the token is
  not a key of \<open>CASE_TO_FUNC\<close>: the lookup that raises is made in \<open>case_item\<close> (which
  does raise on the same document and token), and \<open>case_record\<close> returns an enum before
  calling it.
\<close>

theorem case_record_enum_invalid_token:
  assumes "dict_get d ''type'' = JStr ENUM"
    and "map_of (CASE_TO_FUNC L) case_type = None"
  shows "case_record L (JDict d) case_type = Inr (JDict d)
     \<and> case_item L (JDict d) case_type = Inl (ValueError (unsupported_msg L case_type))"
  using assms by simp

theorem case_record_enum_invalid_token_witness:
  "dict_get color_enum ''type'' = JStr ENUM
   \<and> map_of (CASE_TO_FUNC example_casefy) ''SCREAMING'' = None
   \<and> case_record example_casefy (JDict color_enum) ''SCREAMING'' = Inr (JDict color_enum)
   \<and> case_item example_casefy (JDict color_enum) ''SCREAMING'' =
       Inl (ValueError (unsupported_msg example_casefy ''SCREAMING''))"
proof -
  have t: "dict_get color_enum ''type'' = JStr ENUM"
    by (simp add: dict_get_def color_enum_def ENUM_def)
  have n: "map_of (CASE_TO_FUNC example_casefy) ''SCREAMING'' = None"
    by (rule get_unsupported [OF screaming_unsupported])
  show ?thesis
    using t n case_record_enum_invalid_token [OF t n] by blast
qed

subsection \<open>The loops as relations between lists\<close>

text \<open>A loop returns a list exactly when it is as long as the input and every round
  returned the element at its position.\<close>

lemma item_loop_iff:
  "item_loop L f kvs s = Inr kvs' \<longleftrightarrow>
   list_all2 (\<lambda>(k, v) (k', v'). k' = k \<and> item_value L f s k v = Inr v') kvs kvs'"
proof (induction kvs arbitrary: kvs')
  case Nil
  then show ?case by auto
next
  case (Cons p kvs)
  obtain k v where p: "p = (k, v)" by (cases p)
  have step: "item_loop L f ((k, v) # kvs) s =
      bind (item_value L f s k v)
        (\<lambda>v'. bind (item_loop L f kvs s) (\<lambda>rest'. Inr ((k, v') # rest')))"
    by (simp add: item_value_def)
  show ?case
    unfolding p step
    by (cases kvs') (auto simp: bind_def Cons.IH [symmetric] split: sum.splits)
qed

lemma elem_loop_iff:
  "elem_loop L xs s = Inr xs' \<longleftrightarrow> list_all2 (\<lambda>x x'. elem_value L s x = Inr x') xs xs'"
proof (induction xs arbitrary: xs')
  case Nil
  then show ?case by auto
next
  case (Cons x xs)
  have step: "elem_loop L (x # xs) s =
      bind (elem_value L s x) (\<lambda>x'. bind (elem_loop L xs s) (\<lambda>rest'. Inr (x' # rest')))"
    by (simp add: elem_value_def)
  show ?case
    unfolding step
    by (cases xs') (auto simp: bind_def Cons.IH [symmetric] split: sum.splits)
qed

lemma field_loop_iff:
  "field_loop L fs s = Inr fs' \<longleftrightarrow> list_all2 (\<lambda>x x'. case_item L x s = Inr x') fs fs'"
proof (induction fs arbitrary: fs')
  case Nil
  then show ?case by auto
next
  case (Cons x fs)
  show ?case
    by (cases fs') (auto simp: bind_def Cons.IH [symmetric] split: sum.splits simp del: case_item.simps)
qed

lemma case_item_iff:
  "case_item L item s = Inr out \<longleftrightarrow>
   (\<exists>f kvs kvs'. map_of (CASE_TO_FUNC L) s = Some f \<and> item = JDict kvs \<and> out = JDict kvs'
      \<and> item_loop L f kvs s = Inr kvs')"
  by (auto simp: bind_def split: option.splits json.splits sum.splits)






lemma keys_rel:
  assumes "list_all2 (\<lambda>(k, v) (k', v'). k' = k \<and> Q k v v') d d'"
  shows "map fst d' = map fst d"
  using assms by (induction rule: list_all2_induct) auto



subsection \<open>\<open>str.strip\<close> is idempotent\<close>




subsection \<open>Enum definitions and concrete documents\<close>

lemma item_value_enum:
  "k \<noteq> ''name'' \<Longrightarrow> is_enum v \<Longrightarrow> item_value L f s k v = Inr v"
  by (cases v) (auto simp: item_value_def is_enum_def)

lemma elem_value_enum: "is_enum v \<Longrightarrow> elem_value L s v = Inr v"
  by (cases v) (auto simp: elem_value_def is_enum_def)

lemma item_value_name: "item_value L f s ''name'' v = f v"
  by (simp add: item_value_def)

lemma item_value_list:
  assumes "k \<noteq> ''name''" and "item_value L f s k (JList xs) = Inr v'"
  shows "\<exists>xs'. v' = JList xs' \<and> list_all2 (\<lambda>x x'. elem_value L s x = Inr x') xs xs'"
  using assms by (auto simp: item_value_def bind_def elem_loop_iff split: sum.splits)

lemma get_SNAKECASE: "map_of (CASE_TO_FUNC L) SNAKECASE = Some (snakecase L)"
  by (simp add: CASE_TO_FUNC_def case_token_defs)



lemmas example_casefy_eval =
  example_casefy_def on_str_def snake_def to_lower_def to_upper_def upper_letters_def
  lower_letters_def ENUM_def dict_get_def bind_def

lemma color_record_snake:
  "case_record example_casefy (JDict color_record) SNAKECASE =
     Inr (JDict
       [(''type'', JStr ''record''),
        (''name'', JStr ''UserProfile''),
        (''fields'',
           JList [JDict [(''name'', JStr ''favorite_color''), (''type'', JDict color_enum)]])])"
  by (simp add: get_SNAKECASE color_record_def color_enum_def example_casefy_eval)





subsection \<open>Enum exemption, the concrete scenario, idempotence\<close>

text \<open>
  C2, as the code has it.  In a document that is not an enum and has a non-empty field
  list, whenever the transformation returns, the result is the document with a new
  field list of the same length, and in every field: the keys are the same, the value
  under \<open>name\<close> is what the case function of the style returns for the old one, and
  every enum definition held under another key, directly or as an element of a list
  (a union), is identical to the input's, its own \<open>name\<close> and its symbols included.
\<close>

theorem enum_definitions_exempt:
  assumes "map_of (CASE_TO_FUNC L) case_type = Some case_func"
    and "dict_get d ''type'' \<noteq> JStr ENUM"
    and "dict_get d ''fields'' = JList fs"
    and "fs \<noteq> []"
    and "case_record L (JDict d) case_type = Inr out"
  shows "\<exists>fs'. out = JDict (AList.update ''fields'' (JList fs') d) \<and> length fs' = length fs
     \<and> (\<forall>j < length fs. \<exists>kvs kvs'.
           fs ! j = JDict kvs \<and> fs' ! j = JDict kvs' \<and> map fst kvs' = map fst kvs
           \<and> (\<forall>i < length kvs.
                (fst (kvs ! i) = ''name'' \<longrightarrow> case_func (snd (kvs ! i)) = Inr (snd (kvs' ! i)))
                \<and> (fst (kvs ! i) \<noteq> ''name'' \<and> is_enum (snd (kvs ! i)) \<longrightarrow> kvs' ! i = kvs ! i)
                \<and> (\<forall>xs. fst (kvs ! i) \<noteq> ''name'' \<and> snd (kvs ! i) = JList xs \<longrightarrow>
                     (\<exists>xs'. snd (kvs' ! i) = JList xs' \<and> length xs' = length xs
                        \<and> (\<forall>m < length xs. is_enum (xs ! m) \<longrightarrow> xs' ! m = xs ! m)))))"
proof -
  from assms(2-5) obtain fs' where fl: "field_loop L fs case_type = Inr fs'"
    and out: "out = JDict (AList.update ''fields'' (JList fs') d)"
    by (auto simp: bind_def split: sum.splits simp del: case_item.simps)
  from fl have rel: "list_all2 (\<lambda>x x'. case_item L x case_type = Inr x') fs fs'"
    by (simp add: field_loop_iff)
  then have len: "length fs' = length fs" by (simp add: list_all2_lengthD)
  have "\<exists>kvs kvs'. fs ! j = JDict kvs \<and> fs' ! j = JDict kvs' \<and> map fst kvs' = map fst kvs
      \<and> (\<forall>i < length kvs.
           (fst (kvs ! i) = ''name'' \<longrightarrow> case_func (snd (kvs ! i)) = Inr (snd (kvs' ! i)))
           \<and> (fst (kvs ! i) \<noteq> ''name'' \<and> is_enum (snd (kvs ! i)) \<longrightarrow> kvs' ! i = kvs ! i)
           \<and> (\<forall>xs. fst (kvs ! i) \<noteq> ''name'' \<and> snd (kvs ! i) = JList xs \<longrightarrow>
                (\<exists>xs'. snd (kvs' ! i) = JList xs' \<and> length xs' = length xs
                   \<and> (\<forall>m < length xs. is_enum (xs ! m) \<longrightarrow> xs' ! m = xs ! m))))"
    if j: "j < length fs" for j
  proof -
    from rel j have "case_item L (fs ! j) case_type = Inr (fs' ! j)"
      by (simp add: list_all2_conv_all_nth)
    with assms(1) obtain kvs kvs' where a: "fs ! j = JDict kvs" and b: "fs' ! j = JDict kvs'"
      and il: "item_loop L case_func kvs case_type = Inr kvs'"
      by (auto simp: case_item_iff simp del: case_item.simps)
    from il have r: "list_all2 (\<lambda>(k, v) (k', v'). k' = k
        \<and> item_value L case_func case_type k v = Inr v') kvs kvs'"
      by (simp add: item_loop_iff)
    have keys: "map fst kvs' = map fst kvs" by (rule keys_rel [OF r])
    have entry: "fst (kvs' ! i) = fst (kvs ! i)
        \<and> item_value L case_func case_type (fst (kvs ! i)) (snd (kvs ! i)) = Inr (snd (kvs' ! i))"
      if "i < length kvs" for i
      using list_all2_nthD [OF r that] by (simp add: case_prod_beta)
    have "(fst (kvs ! i) = ''name'' \<longrightarrow> case_func (snd (kvs ! i)) = Inr (snd (kvs' ! i)))
        \<and> (fst (kvs ! i) \<noteq> ''name'' \<and> is_enum (snd (kvs ! i)) \<longrightarrow> kvs' ! i = kvs ! i)
        \<and> (\<forall>xs. fst (kvs ! i) \<noteq> ''name'' \<and> snd (kvs ! i) = JList xs \<longrightarrow>
             (\<exists>xs'. snd (kvs' ! i) = JList xs' \<and> length xs' = length xs
                \<and> (\<forall>m < length xs. is_enum (xs ! m) \<longrightarrow> xs' ! m = xs ! m)))"
      if i: "i < length kvs" for i
    proof (intro conjI impI allI)
      assume "fst (kvs ! i) = ''name''"
      with entry [OF i] show "case_func (snd (kvs ! i)) = Inr (snd (kvs' ! i))"
        by (simp add: item_value_name)
    next
      assume "fst (kvs ! i) \<noteq> ''name'' \<and> is_enum (snd (kvs ! i))"
      with entry [OF i] show "kvs' ! i = kvs ! i"
        by (auto simp: item_value_enum prod_eq_iff)
    next
      fix xs assume h: "fst (kvs ! i) \<noteq> ''name'' \<and> snd (kvs ! i) = JList xs"
      with entry [OF i] item_value_list obtain xs' where x': "snd (kvs' ! i) = JList xs'"
        and rr: "list_all2 (\<lambda>x x'. elem_value L case_type x = Inr x') xs xs'"
        by metis
      from rr have "\<forall>m < length xs. is_enum (xs ! m) \<longrightarrow> xs' ! m = xs ! m"
        by (auto simp: list_all2_conv_all_nth elem_value_enum)
      with x' rr show "\<exists>xs'. snd (kvs' ! i) = JList xs' \<and> length xs' = length xs
          \<and> (\<forall>m < length xs. is_enum (xs ! m) \<longrightarrow> xs' ! m = xs ! m)"
        by (auto dest: list_all2_lengthD)
    qed
    with a b keys show ?thesis by blast
  qed
  with out len show ?thesis by blast
qed

theorem enum_definitions_exempt_witness:
  "map_of (CASE_TO_FUNC example_casefy) SNAKECASE = Some (snakecase example_casefy)
   \<and> dict_get color_record ''type'' \<noteq> JStr ENUM
   \<and> dict_get color_record ''fields'' =
       JList [JDict [(''name'', JStr ''favoriteColor''), (''type'', JDict color_enum)]]
   \<and> case_record example_casefy (JDict color_record) SNAKECASE =
       Inr (JDict
         [(''type'', JStr ''record''),
          (''name'', JStr ''UserProfile''),
          (''fields'',
             JList [JDict [(''name'', JStr ''favorite_color''), (''type'', JDict color_enum)]])])
   \<and> (\<exists>fs' :: json list. length fs' = 1
        \<and> (\<exists>kvs'. fs' ! 0 = JDict kvs' \<and> kvs' ! 1 = (''type'', JDict color_enum)))"
proof -
  let ?kvs = "[(''name'', JStr ''favoriteColor''), (''type'', JDict color_enum)]"
  let ?fs = "[JDict ?kvs]"
  have t: "dict_get color_record ''type'' \<noteq> JStr ENUM"
    by (simp add: dict_get_def color_record_def ENUM_def)
  have f: "dict_get color_record ''fields'' = JList ?fs"
    by (simp add: dict_get_def color_record_def)
  have n: "?fs \<noteq> []" by simp
  have e: "is_enum (JDict color_enum)"
    by (simp add: is_enum_def dict_get_def color_enum_def ENUM_def)
  note r = color_record_snake
  from enum_definitions_exempt [OF get_SNAKECASE t f n r] obtain fs' :: "json list" where
    len: "length fs' = length ?fs"
    and all: "\<forall>j < length ?fs. \<exists>kvs kvs'.
           ?fs ! j = JDict kvs \<and> fs' ! j = JDict kvs' \<and> map fst kvs' = map fst kvs
           \<and> (\<forall>i < length kvs.
                (fst (kvs ! i) = ''name'' \<longrightarrow>
                   snakecase example_casefy (snd (kvs ! i)) = Inr (snd (kvs' ! i)))
                \<and> (fst (kvs ! i) \<noteq> ''name'' \<and> is_enum (snd (kvs ! i)) \<longrightarrow> kvs' ! i = kvs ! i)
                \<and> (\<forall>xs. fst (kvs ! i) \<noteq> ''name'' \<and> snd (kvs ! i) = JList xs \<longrightarrow>
                     (\<exists>xs'. snd (kvs' ! i) = JList xs' \<and> length xs' = length xs
                        \<and> (\<forall>m < length xs. is_enum (xs ! m) \<longrightarrow> xs' ! m = xs ! m))))"
    by blast
  from all obtain kvs' where k: "fs' ! 0 = JDict kvs'"
    and ent: "\<forall>i < length ?kvs.
        (fst (?kvs ! i) \<noteq> ''name'' \<and> is_enum (snd (?kvs ! i)) \<longrightarrow> kvs' ! i = ?kvs ! i)"
    by force
  from ent e have "kvs' ! 1 = (''type'', JDict color_enum)" by simp
  with len k have "\<exists>fs' :: json list. length fs' = 1
      \<and> (\<exists>kvs'. fs' ! 0 = JDict kvs' \<and> kvs' ! 1 = (''type'', JDict color_enum))"
    by auto
  with get_SNAKECASE t f r show ?thesis by (intro conjI) assumption+
qed

text \<open>
  C2 as stated fails in its first half: the field's name becomes \<open>favorite_color\<close>, but
  the enum's own name stays \<open>FavoriteColor\<close>, where the style would give
  \<open>favorite_color\<close>.
\<close>

theorem enum_name_kept_counterexample:
  "case_record example_casefy (JDict color_record) SNAKECASE =
     Inr (JDict
       [(''type'', JStr ''record''),
        (''name'', JStr ''UserProfile''),
        (''fields'',
           JList [JDict [(''name'', JStr ''favorite_color''),
                         (''type'',
                            JDict [(''type'', JStr ''enum''),
                                   (''name'', JStr ''FavoriteColor''),
                                   (''symbols'', JList [JStr ''Blue'', JStr ''darkGreen''])])]])])
   \<and> snakecase example_casefy (JStr ''FavoriteColor'') = Inr (JStr ''favorite_color'')"
  by (simp add: get_SNAKECASE color_record_def color_enum_def example_casefy_eval)

text \<open>
  C9, as the code has it.  For every library whose snake case of \<open>fullName\<close> is
  \<open>full_name\<close>, the record named \<open>PersonRecord\<close> with the one field \<open>fullName\<close> (of
  any named type) comes back with the field named \<open>full_name\<close>, the record's own name
  still \<open>PersonRecord\<close>, and every other key and value as it was.
\<close>

theorem snakecase_person_record:
  assumes "snakecase L (JStr ''fullName'') = Inr (JStr ''full_name'')"
  shows "case_record L
       (JDict [(''type'', JStr ''record''),
               (''name'', JStr ''PersonRecord''),
               (''fields'', JList [JDict [(''name'', JStr ''fullName''), (''type'', JStr t)]])])
       SNAKECASE =
     Inr (JDict [(''type'', JStr ''record''),
                 (''name'', JStr ''PersonRecord''),
                 (''fields'', JList [JDict [(''name'', JStr ''full_name''), (''type'', JStr t)]])])"
  using assms by (simp add: get_SNAKECASE dict_get_def ENUM_def bind_def)

theorem snakecase_person_record_witness:
  "snakecase example_casefy (JStr ''fullName'') = Inr (JStr ''full_name'')
   \<and> case_record example_casefy (JDict person_record) SNAKECASE =
     Inr (JDict [(''type'', JStr ''record''),
                 (''name'', JStr ''PersonRecord''),
                 (''fields'',
                    JList [JDict [(''name'', JStr ''full_name''), (''type'', JStr ''string'')]])])"
proof -
  have h: "snakecase example_casefy (JStr ''fullName'') = Inr (JStr ''full_name'')"
    by (simp add: example_casefy_eval)
  show ?thesis
    using h snakecase_person_record [OF h, of "''string''"] by (simp add: person_record_def)
qed

text \<open>
  C9 as stated fails: the result is not the document with the record renamed to
  \<open>person_record\<close>.  A document with a truthy \<open>fields\<close> is returned with its field list
  replaced and nothing else touched.
\<close>

theorem record_name_kept_counterexample:
  "case_record example_casefy (JDict person_record) SNAKECASE \<noteq>
     Inr (JDict [(''type'', JStr ''record''),
                 (''name'', JStr ''person_record''),
                 (''fields'',
                    JList [JDict [(''name'', JStr ''full_name''), (''type'', JStr ''string'')]])])"
  by (simp add: get_SNAKECASE person_record_def example_casefy_eval)




section \<open>Properties of the coercion configuration\<close>

lemma map_of_dict_update:
  "distinct (map fst u) \<Longrightarrow>
   map_of (dict_update d u) k = (case map_of u k of None \<Rightarrow> map_of d k | Some v \<Rightarrow> Some v)"
proof (induction u arbitrary: d)
  case Nil
  then show ?case by simp
next
  case (Cons p u)
  obtain k' v' where p: "p = (k', v')" by (cases p)
  from Cons.prems p have notin: "k' \<notin> fst ` set u" and dist: "distinct (map fst u)" by auto
  from notin have none: "map_of u k' = None" by (simp add: map_of_eq_None_iff)
  show ?case using Cons.IH [OF dist, of "AList.update k' v' d"] p none
    by (auto simp: update_conv' split: option.splits)
qed

lemma keys_dict_update:
  "fst ` set (dict_update d u) = fst ` set d \<union> fst ` set u"
proof (induction u arbitrary: d)
  case Nil
  then show ?case by simp
next
  case (Cons p u)
  obtain k' v' where p: "p = (k', v')" by (cases p)
  have "fst ` set (AList.update k' v' d) = insert k' (fst ` set d)"
    using dom_update [of k' v' d] by (simp add: dom_map_of_conv_image_fst del: dom_update)
  then show ?case using Cons.IH [of "AList.update k' v' d"] p by auto
qed

text \<open>The function in terms of the dictionary handed to \<open>Config\<close>.\<close>

lemma generate_dacite_config_merged:
  "generate_dacite_config model =
     bind (Config_init (merged_config model))
       (\<lambda>config. case cast config of
            CList xs \<Rightarrow>
              Inr (config\<lparr>cast := CList (xs @ enforced_casts)\<rparr>,
                   if map_of (user_overrides model) ''cast'' \<noteq> None
                   then model\<lparr>dacite_config :=
                          Some (AList.update ''cast'' (CList (xs @ enforced_casts))
                                  (user_overrides model))\<rparr>
                   else model)
          | _ \<Rightarrow> Inl AttributeError)"
  by (cases "dacite_config model")
     (auto simp: generate_dacite_config_def merged_config_def user_overrides_def Let_def
           intro!: bind_cong split: confval.splits)

lemma Config_init_merged:
  assumes "set (map fst (user_overrides model)) \<subseteq> set Config_fields"
  shows "Config_init (merged_config model) =
     Inr \<lparr>type_hooks = kwarg (merged_config model) ''type_hooks'' (CHooks []),
          cast = kwarg (merged_config model) ''cast'' (CList []),
          forward_references = kwarg (merged_config model) ''forward_references'' CNone,
          check_types = kwarg (merged_config model) ''check_types'' (CBool True),
          strict = kwarg (merged_config model) ''strict'' (CBool False),
          strict_unions_match =
            kwarg (merged_config model) ''strict_unions_match'' (CBool False)\<rparr>"
proof -
  have "fst ` set (merged_config model) \<subseteq> set Config_fields"
    using assms
    by (auto simp: merged_config_def keys_dict_update default_dacite_config_def
        Config_fields_def)
  then show ?thesis by (auto simp: Config_init_def)
qed

lemma kwarg_merged:
  assumes "distinct (map fst (user_overrides model))"
    and "map_of (default_dacite_config model) k = Some b"
  shows "kwarg (merged_config model) k dflt =
     (case map_of (user_overrides model) k of None \<Rightarrow> b | Some v \<Rightarrow> v)"
  using assms
  by (simp add: kwarg_def merged_config_def map_of_dict_update split: option.splits)

lemmas generate_dacite_config_eval =
  generate_dacite_config_def default_dacite_config_def Config_init_def Config_fields_def
  kwarg_def bind_def enforced_casts_def user_overrides_def Let_def

text \<open>
  C5, as the code has it.  For a model whose overrides are a dictionary of \<open>Config\<close>
  fields (distinct keys) with a list under \<open>cast\<close> if that key is there, a
  configuration is produced, and its \<open>check_types\<close> is \<open>False\<close> when the overrides have no
  \<open>check_types\<close> key and the user's value when they have one.
\<close>

theorem check_types_default_or_user:
  assumes "distinct (map fst (user_overrides model))"
    and "set (map fst (user_overrides model)) \<subseteq> set Config_fields"
    and "map_of (user_overrides model) ''cast'' \<in> {None} \<union> range (\<lambda>xs. Some (CList xs))"
  shows "\<exists>config model'. generate_dacite_config model = Inr (config, model')
     \<and> check_types config =
         (case map_of (user_overrides model) ''check_types'' of
            None \<Rightarrow> CBool False
          | Some v \<Rightarrow> v)"
proof -
  have c: "kwarg (merged_config model) ''cast'' (CList []) =
      (case map_of (user_overrides model) ''cast'' of None \<Rightarrow> CList [] | Some v \<Rightarrow> v)"
    by (rule kwarg_merged [OF assms(1)]) (simp add: default_dacite_config_def)
  have t: "kwarg (merged_config model) ''check_types'' (CBool True) =
      (case map_of (user_overrides model) ''check_types'' of
         None \<Rightarrow> CBool False | Some v \<Rightarrow> v)"
    by (rule kwarg_merged [OF assms(1)]) (simp add: default_dacite_config_def)
  from assms(3) obtain xs where
    xs: "kwarg (merged_config model) ''cast'' (CList []) = CList xs"
    unfolding c by (auto split: option.splits)
  show ?thesis
    unfolding generate_dacite_config_merged Config_init_merged [OF assms(2)]
    using xs t by (simp add: bind_def)
qed

theorem check_types_default_or_user_witness:
  "distinct (map fst (user_overrides casting_model))
   \<and> set (map fst (user_overrides casting_model)) \<subseteq> set Config_fields
   \<and> map_of (user_overrides casting_model) ''cast'' \<in> {None} \<union> range (\<lambda>xs. Some (CList xs))
   \<and> (\<exists>config model'. generate_dacite_config casting_model = Inr (config, model')
        \<and> check_types config = CBool False)"
proof -
  have d: "distinct (map fst (user_overrides casting_model))"
    by (simp add: user_overrides_def casting_model_def)
  have k: "set (map fst (user_overrides casting_model)) \<subseteq> set Config_fields"
    by (simp add: user_overrides_def casting_model_def Config_fields_def)
  have c: "map_of (user_overrides casting_model) ''cast'' \<in> {None} \<union> range (\<lambda>xs. Some (CList xs))"
    by (simp add: user_overrides_def casting_model_def)
  have n: "map_of (user_overrides casting_model) ''check_types'' = None"
    by (simp add: user_overrides_def casting_model_def)
  show ?thesis
    using d k c check_types_default_or_user [OF d k c] by (simp add: n)
qed

text \<open>
  C5 as stated fails: an override \<open>{"check_types": True}\<close> is merged over the default
  and reaches the configuration.
\<close>

theorem check_types_override_counterexample:
  "(case generate_dacite_config checked_model of
      Inr (config, model') \<Rightarrow> check_types config = CBool True
    | Inl e \<Rightarrow> False)"
  by (simp add: generate_dacite_config_eval checked_model_def)

text \<open>
  C6. For a model whose overrides are a dictionary of \<open>Config\<close> fields (distinct keys)
  with a list under \<open>cast\<close> if that key is there, a configuration is produced and its
  cast list is the user's list (the empty list when the user gives none) followed by
  \<open>typing.Tuple\<close>, \<open>tuple\<close> and \<open>enum.Enum\<close>.
\<close>

theorem cast_has_enforced_rules:
  assumes "distinct (map fst (user_overrides model))"
    and "set (map fst (user_overrides model)) \<subseteq> set Config_fields"
    and "map_of (user_overrides model) ''cast'' = None \<and> xs = []
         \<or> map_of (user_overrides model) ''cast'' = Some (CList xs)"
  shows "\<exists>config model'. generate_dacite_config model = Inr (config, model')
     \<and> cast config = CList (xs @ [T_typing_Tuple, T_tuple, T_Enum])"
proof -
  have c: "kwarg (merged_config model) ''cast'' (CList []) =
      (case map_of (user_overrides model) ''cast'' of None \<Rightarrow> CList [] | Some v \<Rightarrow> v)"
    by (rule kwarg_merged [OF assms(1)]) (simp add: default_dacite_config_def)
  from assms(3) have xs: "kwarg (merged_config model) ''cast'' (CList []) = CList xs"
    unfolding c by (auto split: option.splits)
  show ?thesis
    unfolding generate_dacite_config_merged Config_init_merged [OF assms(2)]
    using xs by (simp add: bind_def enforced_casts_def)
qed

theorem cast_has_enforced_rules_witness:
  "distinct (map fst (user_overrides casting_model))
   \<and> set (map fst (user_overrides casting_model)) \<subseteq> set Config_fields
   \<and> map_of (user_overrides casting_model) ''cast'' = Some (CList [T_class ''Decimal''])
   \<and> (\<exists>config model'. generate_dacite_config casting_model = Inr (config, model')
        \<and> cast config = CList [T_class ''Decimal'', T_typing_Tuple, T_tuple, T_Enum])"
proof -
  have d: "distinct (map fst (user_overrides casting_model))"
    by (simp add: user_overrides_def casting_model_def)
  have k: "set (map fst (user_overrides casting_model)) \<subseteq> set Config_fields"
    by (simp add: user_overrides_def casting_model_def Config_fields_def)
  have c: "map_of (user_overrides casting_model) ''cast'' = Some (CList [T_class ''Decimal''])"
    by (simp add: user_overrides_def casting_model_def)
  show ?thesis
    using d k c cast_has_enforced_rules [OF d k disjI2 [OF c]] by simp
qed

section \<open>Properties of the type hooks\<close>




text \<open>
  C8. Where the datetime hook returns a \<open>datetime\<close> for a text, the date hook returns its
  \<open>date()\<close> and the time hook its \<open>time()\<close>; and each of the two raises on exactly the
  texts on which the datetime hook raises.
\<close>

theorem date_and_time_hooks:
  "(parse_datetime parse (Str s) = Inr (Datetime dt) \<longrightarrow>
      parse_date parse (Str s) = Inr (Date (date_of dt))
      \<and> parse_time parse (Str s) = Inr (Time (time_of dt)))
   \<and> (isl (parse_date parse (Str s)) \<longleftrightarrow> isl (parse_datetime parse (Str s)))
   \<and> (isl (parse_time parse (Str s)) \<longleftrightarrow> isl (parse_datetime parse (Str s)))"
  by (auto simp: parse_datetime_def parse_date_def parse_time_def split: sum.splits)

theorem date_and_time_hooks_witness:
  "parse_datetime example_parse (Str ''2024-01-02 03:04:05'') = Inr (Datetime example_datetime)
   \<and> parse_date example_parse (Str ''2024-01-02 03:04:05'') =
       Inr (Date \<lparr>d_year = 2024, d_month = 1, d_day = 2\<rparr>)
   \<and> parse_time example_parse (Str ''2024-01-02 03:04:05'') =
       Inr (Time \<lparr>t_hour = 3, t_minute = 4, t_second = 5, t_microsecond = 0,
                   t_tzinfo = None, t_fold = False\<rparr>)
   \<and> isl (parse_datetime example_parse (Str ''not-a-date''))
   \<and> isl (parse_date example_parse (Str ''not-a-date''))
   \<and> isl (parse_time example_parse (Str ''not-a-date''))"
proof -
  have p: "parse_datetime example_parse (Str ''2024-01-02 03:04:05'') = Inr (Datetime example_datetime)"
    by (simp add: parse_datetime_def example_parse_def)
  have q: "isl (parse_datetime example_parse (Str ''not-a-date''))"
    by (simp add: parse_datetime_def example_parse_def)
  show ?thesis
    using p q
      date_and_time_hooks [of example_parse "''2024-01-02 03:04:05''" example_datetime]
      date_and_time_hooks [of example_parse "''not-a-date''" example_datetime]
    by (simp add: date_of_def time_of_def example_datetime_def)
qed

end
